theory Spec2Isabelle
  imports Main
begin

section \<open>ProxyNest: the proxy pool manager of \<open>proxynest.py\<close>\<close>

text \<open>
  The manager keeps its proxies in a MongoDB collection and its tunable parameters in a
  second collection holding one document. Every method of \<open>ProxyManagement\<close> is a short
  sequence of store calls, so the embedding is a state-passing one: a store call takes the
  collection and returns what the driver reports together with the new collection.

  Conventions of the embedding:
  \<^item> an \<open>ObjectId\<close> is a natural number (\<open>oid\<close>); the conversions between its string form
    and the object are not modelled;
  \<^item> a timestamp is an integer number of milliseconds, the resolution at which the store
    keeps dates; \<open>timedelta(minutes=m)\<close> is \<open>minutes m\<close>;
  \<^item> a Python dict or BSON document whose size, order or equality matters (the lease map
    \<open>instance_ids\<close>) is an association list in insertion order; the settings document,
    which is only read by key, is a map;
  \<^item> the server reads an update path \<open>instance_ids.<k>\<close> as a sequence of field names
    separated by dots: it names the key \<open>k\<close> of the lease map only when \<open>k\<close> is a single
    path segment (\<open>path_segment\<close>: not empty, no dot). For \<open>$unset\<close> the other cases are
    modelled too (\<open>unset_path\<close>, \<open>accepted_paths\<close>); for \<open>$currentDate\<close> the model is that
    of path segments, and what is proved of it is stated for them;
  \<^item> the three background loops and the requests run one after the other, except where a
    definition takes two stores (the one read and the one written).
\<close>

subsection \<open>Documents\<close>

type_synonym oid = nat
type_synonym instant = int
type_synonym leases = "(string \<times> instant) list"

text \<open>A field of a document that may be absent, hold \<open>null\<close>, or hold a value.\<close>

datatype 'a field = Missing | Null | Value 'a

text \<open>
  The field \<open>instance_ids\<close>. \<open>add_proxy\<close> and \<open>reset_all_proxies\<close> store a document (the
  lease map); \<open>model_dump(exclude_none=True)\<close> leaves the field out when the client sent
  \<open>null\<close>; \<open>assign_instance_id\<close> (\<open>$addToSet\<close>) makes it an array of instance ids. The
  code tests for these shapes (\<open>this.instance_ids &&\<close>, \<open>isinstance(instance_ids, dict)\<close>,
  \<open>{"$type": "object"}\<close>).
\<close>

datatype ids_field = IdsMissing | IdsDict leases | IdsArray "string list"

text \<open>
  \<open>ProxyModel\<close>, as the document stored in the collection \<open>proxies\<close>. \<open>response_time\<close>
  (a float written by the prober) is left out: no operation below reads or writes it.
\<close>

record proxy =
  pid :: oid
  ip :: string
  port :: int
  username :: "string option"
  password :: "string option"
  protocol :: string
  status :: string
  country_code :: "string option"
  instance_id :: "string field"
  instance_ids :: ids_field
  last_used :: "instant field"
  tags :: "string list option"

type_synonym store = "proxy list"

text \<open>
  The attributes of \<open>ProxyManagement\<close>: \<open>self.settings\<close> and the five cached values that
  \<open>load_settings\<close> assigns and every consumer reads.
\<close>

record manager =
  settings :: "(string \<rightharpoonup> int) option"
  inactive_proxy_timeout :: int
  threshold_time_minutes :: int
  background_check_proxies_interval :: int
  max_instances_per_proxy :: int
  max_proxies_per_instance :: int

definition minutes :: "int \<Rightarrow> int" where
  "minutes m = m * 60000"

subsection \<open>Python dicts and strings\<close>

text \<open>\<open>d[k] = v\<close>: an existing key keeps its place, a new key goes last.\<close>

fun setitem :: "string \<Rightarrow> 'v \<Rightarrow> (string \<times> 'v) list \<Rightarrow> (string \<times> 'v) list" where
  "setitem k v [] = [(k, v)]"
| "setitem k v ((k', v') # d) = (if k' = k then (k, v) # d else (k', v') # setitem k v d)"

text \<open>Removing a key (\<open>$unset\<close> of one field of an embedded document).\<close>

fun delitem :: "string \<Rightarrow> (string \<times> 'v) list \<Rightarrow> (string \<times> 'v) list" where
  "delitem k [] = []"
| "delitem k ((k', v') # d) = (if k' = k then delitem k d else (k', v') # delitem k d)"

definition keys :: "(string \<times> 'v) list \<Rightarrow> string list" where
  "keys d = map fst d"

text \<open>\<open>str.upper()\<close> on ASCII text.\<close>

definition upper_char :: "char \<Rightarrow> char" where
  "upper_char c =
     (let n = (of_char c :: nat) in if 97 \<le> n \<and> n \<le> 122 then char_of (n - 32) else c)"

definition upper :: "string \<Rightarrow> string" where
  "upper s = map upper_char s"

text \<open>Truthiness of an optional string and of an optional list (\<open>if country_code:\<close>).\<close>

fun truthy :: "'a list option \<Rightarrow> bool" where
  "truthy None = False"
| "truthy (Some xs) = (xs \<noteq> [])"

definition path_segment :: "string \<Rightarrow> bool" where
  "path_segment k = (k \<noteq> [] \<and> CHR ''.'' \<notin> set k)"

text \<open>
  The field names of a path: the text between the dots. \<open>"a.b"\<close> has the names \<open>a\<close> and
  \<open>b\<close>; \<open>""\<close>, \<open>"a."\<close> and \<open>"a..b"\<close> have an empty name.
\<close>

fun split_path :: "string \<Rightarrow> string list" where
  "split_path [] = [[]]"
| "split_path (c # cs) =
     (if c = CHR ''.'' then [] # split_path cs
      else (case split_path cs of
              seg # segs \<Rightarrow> (c # seg) # segs
            | [] \<Rightarrow> [[c]]))"

text \<open>
  The server parses the paths of an update before it looks for the document. It rejects
  the update when a path has an empty field name, and when the names of one path are the
  first names of another (\<open>instance_ids.a\<close> and \<open>instance_ids.a.b\<close> in one \<open>$unset\<close>); the
  driver then raises. The paths here are \<open>instance_ids.<k>\<close> for the keys \<open>ks\<close>.
\<close>

definition no_empty_name :: "string \<Rightarrow> bool" where
  "no_empty_name k = list_all (\<lambda>seg. seg \<noteq> []) (split_path k)"

definition leads_through :: "string \<Rightarrow> string \<Rightarrow> bool" where
  "leads_through k1 k2 =
     (take (length (split_path k1)) (split_path k2) = split_path k1)"

definition conflicting :: "string list \<Rightarrow> bool" where
  "conflicting ks =
     list_ex (\<lambda>k1. list_ex (\<lambda>k2. k1 \<noteq> k2 \<and> leads_through k1 k2) ks) ks"

definition accepted_paths :: "string list \<Rightarrow> bool" where
  "accepted_paths ks = (list_all no_empty_name ks \<and> \<not> conflicting ks)"

subsection \<open>Store calls\<close>

text \<open>
  \<open>update_one(filter, update)\<close>: the first document that satisfies the filter is replaced
  by its update. The results are \<open>matched_count\<close> and \<open>modified_count\<close>; a document that
  the update leaves as it was is matched but not modified.
\<close>

fun update_one :: "(proxy \<Rightarrow> bool) \<Rightarrow> (proxy \<Rightarrow> proxy) \<Rightarrow> store \<Rightarrow> (nat \<times> nat) \<times> store" where
  "update_one flt upd [] = ((0, 0), [])"
| "update_one flt upd (p # ps) =
     (if flt p then ((1, if upd p = p then 0 else 1), upd p # ps)
      else (case update_one flt upd ps of (r, ps') \<Rightarrow> (r, p # ps')))"

definition matched_count :: "(nat \<times> nat) \<times> store \<Rightarrow> nat" where
  "matched_count r = fst (fst r)"

definition modified_count :: "(nat \<times> nat) \<times> store \<Rightarrow> nat" where
  "modified_count r = snd (fst r)"

text \<open>\<open>find_one({"_id": ...})\<close>, the read behind \<open>get_proxy\<close>.\<close>

definition get_proxy :: "oid \<Rightarrow> store \<Rightarrow> proxy option" where
  "get_proxy i s = find (\<lambda>p. pid p = i) s"

text \<open>
  The query condition \<open>{"instance_ids": x}\<close> for a string \<open>x\<close>: it holds for a field that
  is an array with the element \<open>x\<close>. A field that holds an embedded document is compared
  with the string as a whole and differs from it.
\<close>

fun field_equals :: "string \<Rightarrow> ids_field \<Rightarrow> bool" where
  "field_equals x IdsMissing = False"
| "field_equals x (IdsDict d) = False"
| "field_equals x (IdsArray a) = (x \<in> set a)"

text \<open>
  The \<open>$where\<close> clause \<open>this.instance_ids && Object.keys(this.instance_ids).length < n\<close>:
  an absent field is falsy; objects and arrays are truthy and have their entries as keys.
\<close>

fun where_below :: "int \<Rightarrow> ids_field \<Rightarrow> bool" where
  "where_below n IdsMissing = False"
| "where_below n (IdsDict d) = (int (length d) < n)"
| "where_below n (IdsArray a) = (int (length a) < n)"

text \<open>\<open>{"tags": {"$all": ts}}\<close>.\<close>

fun tags_all :: "string list \<Rightarrow> string list option \<Rightarrow> bool" where
  "tags_all ts None = False"
| "tags_all ts (Some pt) = (set ts \<subseteq> set pt)"

subsection \<open>Assignment\<close>

datatype assign_error =
    InstanceSaturated
  | NoProxyAvailable
  | AssignFailed oid
  | AttributeError

record assignment =
  a_proxy_id :: oid
  a_ip :: string
  a_port :: int
  a_username :: "string option"
  a_password :: "string option"
  a_protocol :: string

text \<open>The query of \<open>assign_proxy_to_instance\<close> for a candidate.\<close>

definition candidate_query :: "manager \<Rightarrow> string option \<Rightarrow> string list option \<Rightarrow> proxy \<Rightarrow> bool" where
  "candidate_query m cc tgs p =
     (status p = ''UP'' \<and> where_below (max_instances_per_proxy m) (instance_ids p)
      \<and> (if truthy tgs then tags_all (the tgs) (tags p) else True)
      \<and> (if truthy cc then country_code p = Some (upper (the cc)) else True))"

text \<open>
  The reads of an assignment: the proxies matched by \<open>{"instance_ids": instance_id}\<close>
  are counted against \<open>max_proxies_per_instance\<close>, then \<open>find_one\<close> returns the first
  candidate.
\<close>

definition assign_select ::
  "manager \<Rightarrow> string \<Rightarrow> string option \<Rightarrow> string list option \<Rightarrow> store \<Rightarrow> assign_error + proxy" where
  "assign_select m iid cc tgs s =
     (let instance_proxies = filter (\<lambda>p. field_equals iid (instance_ids p)) s in
      if int (length instance_proxies) \<ge> max_proxies_per_instance m then Inl InstanceSaturated
      else (case find (candidate_query m cc tgs) s of
              None \<Rightarrow> Inl NoProxyAvailable
            | Some p \<Rightarrow> Inr p))"

text \<open>
  The new lease map, computed on the document that was read: the dict comprehension keeps
  the leases newer than \<open>current_time - timedelta(minutes=inactive_proxy_timeout)\<close>, then
  the instance is entered at \<open>current_time\<close>. A value without \<open>items()\<close> raises.
\<close>

definition prune :: "manager \<Rightarrow> instant \<Rightarrow> leases \<Rightarrow> leases" where
  "prune m now d = filter (\<lambda>(k, v). v > now - minutes (inactive_proxy_timeout m)) d"

definition new_instance_ids :: "manager \<Rightarrow> string \<Rightarrow> instant \<Rightarrow> proxy \<Rightarrow> assign_error + leases" where
  "new_instance_ids m iid now p =
     (case instance_ids p of
        IdsDict d \<Rightarrow> Inr (setitem iid now (prune m now d))
      | _ \<Rightarrow> Inl AttributeError)"

text \<open>
  \<open>update_last_used(proxy_id, instance_id)\<close>: \<open>$currentDate\<close> writes the server's time
  \<open>srv\<close> to the lease of the instance when an instance id is given and is truthy, to
  \<open>last_used\<close> otherwise. On an absent \<open>instance_ids\<close> the path creates the map; on an
  array the path names no field and the server rejects the write (an id that is an array
  index aside, which is outside this model).
\<close>

datatype write_error = WriteError

definition current_date_lease :: "string \<Rightarrow> instant \<Rightarrow> proxy \<Rightarrow> proxy" where
  "current_date_lease k srv p =
     p\<lparr>instance_ids :=
         (case instance_ids p of
            IdsDict d \<Rightarrow> IdsDict (setitem k srv d)
          | IdsMissing \<Rightarrow> IdsDict [(k, srv)]
          | IdsArray a \<Rightarrow> IdsArray a)\<rparr>"

fun is_array :: "ids_field \<Rightarrow> bool" where
  "is_array (IdsArray a) = True"
| "is_array _ = False"

definition update_last_used :: "oid \<Rightarrow> string option \<Rightarrow> instant \<Rightarrow> store \<Rightarrow> (write_error + bool) \<times> store" where
  "update_last_used i iid srv s =
     (if truthy iid then
        (case get_proxy i s of
           None \<Rightarrow> (Inr False, s)
         | Some p \<Rightarrow>
             if is_array (instance_ids p) then (Inl WriteError, s)
             else (let r = update_one (\<lambda>p. pid p = i) (current_date_lease (the iid) srv) s
                   in (Inr (modified_count r > 0), snd r)))
      else (let r = update_one (\<lambda>p. pid p = i) (\<lambda>p. p\<lparr>last_used := Value srv\<rparr>) s
            in (Inr (modified_count r > 0), snd r)))"

text \<open>
  The write of an assignment, on the store as it is when the write arrives: \<open>$set\<close> of
  \<open>instance_ids\<close> on the document with the candidate's \<open>_id\<close>, then, when one document was
  modified, \<open>update_last_used(proxy_id)\<close> and the payload built from the candidate.
\<close>

definition assign_commit ::
  "string \<Rightarrow> instant \<Rightarrow> proxy \<Rightarrow> leases \<Rightarrow> store \<Rightarrow> (assign_error + assignment) \<times> store" where
  "assign_commit iid srv p d s =
     (let r = update_one (\<lambda>q. pid q = pid p) (\<lambda>q. q\<lparr>instance_ids := IdsDict d\<rparr>) s in
      if modified_count r = 1 then
        (Inr \<lparr>a_proxy_id = pid p, a_ip = ip p, a_port = port p, a_username = username p,
              a_password = password p, a_protocol = protocol p\<rparr>,
         snd (update_last_used (pid p) None srv (snd r)))
      else (Inl (AssignFailed (pid p)), snd r))"

text \<open>
  \<open>assign_proxy_to_instance\<close> with the reads made on \<open>s_read\<close> and the write arriving on
  \<open>s_write\<close>; a request that runs alone has both equal.
\<close>

definition assign_between ::
  "manager \<Rightarrow> string \<Rightarrow> string option \<Rightarrow> string list option \<Rightarrow> instant \<Rightarrow> instant \<Rightarrow>
   store \<Rightarrow> store \<Rightarrow> (assign_error + assignment) \<times> store" where
  "assign_between m iid cc tgs now srv s_read s_write =
     (case assign_select m iid cc tgs s_read of
        Inl e \<Rightarrow> (Inl e, s_write)
      | Inr p \<Rightarrow>
          (case new_instance_ids m iid now p of
             Inl e \<Rightarrow> (Inl e, s_write)
           | Inr d \<Rightarrow> assign_commit iid srv p d s_write))"

definition assign_proxy_to_instance ::
  "manager \<Rightarrow> string \<Rightarrow> string option \<Rightarrow> string list option \<Rightarrow> instant \<Rightarrow> instant \<Rightarrow>
   store \<Rightarrow> (assign_error + assignment) \<times> store" where
  "assign_proxy_to_instance m iid cc tgs now srv s = assign_between m iid cc tgs now srv s s"

subsection \<open>Refreshing and clearing leases\<close>

datatype reply = StatusSuccess | StatusError


fun is_object :: "ids_field \<Rightarrow> bool" where
  "is_object (IdsDict d) = True"
| "is_object _ = False"

text \<open>
  \<open>$unset\<close> of the path \<open>instance_ids.<k>\<close> on a lease map. A single path segment names
  the key \<open>k\<close>, which is removed. A path of several names leads into the value stored
  under its first name; the values of a lease map are dates, not documents, so such a path
  names no field and nothing is removed, also when the map has the key \<open>k\<close> itself.
\<close>

definition unset_path :: "string \<Rightarrow> leases \<Rightarrow> leases" where
  "unset_path k d = (if path_segment k then delitem k d else d)"

definition unset_lease :: "string \<Rightarrow> proxy \<Rightarrow> proxy" where
  "unset_lease k p =
     p\<lparr>instance_ids := (case instance_ids p of IdsDict d \<Rightarrow> IdsDict (unset_path k d) | x \<Rightarrow> x)\<rparr>"

text \<open>
  \<open>clear_instance_id\<close>: the \<open>$unset\<close> of the lease on a document whose \<open>instance_ids\<close> is
  an object; when that modified nothing, the scalar field \<open>instance_id\<close> is set to \<open>null\<close>
  and the result is whether this second write modified the document. A path that the
  server rejects makes the first \<open>update_one\<close> raise; nothing catches it.
\<close>

definition clear_instance_id :: "oid \<Rightarrow> string \<Rightarrow> store \<Rightarrow> (write_error + bool) \<times> store" where
  "clear_instance_id i iid s =
     (if accepted_paths [iid] then
        (let r = update_one (\<lambda>p. pid p = i \<and> is_object (instance_ids p)) (unset_lease iid) s in
         if modified_count r = 1 then (Inr True, snd r)
         else (let r2 = update_one (\<lambda>p. pid p = i) (\<lambda>p. p\<lparr>instance_id := Null\<rparr>) (snd r)
               in (Inr (modified_count r2 = 1), snd r2)))
      else (Inl WriteError, s))"

definition clear_instance_from_specific_proxy ::
  "oid \<Rightarrow> string \<Rightarrow> store \<Rightarrow> (write_error + reply) \<times> store" where
  "clear_instance_from_specific_proxy i iid s =
     (case clear_instance_id i iid s of
        (Inl e, s') \<Rightarrow> (Inl e, s')
      | (Inr result, s') \<Rightarrow> (Inr (if result then StatusSuccess else StatusError), s'))"

subsection \<open>Expiry sweep\<close>

text \<open>
  One iteration of the loop of \<open>clear_inactive_proxies\<close> (the loop itself never returns:
  it sleeps and starts over). The proxies are read once; each one with expired leases is
  then updated by \<open>_id\<close>, with one \<open>$unset\<close> of the paths \<open>instance_ids.<k>\<close> of the expired
  leases and, when every lease of the document read was expired, of \<open>last_used\<close>. An
  update that the server rejects raises; the loop does not catch it, so the iteration
  ends there with the store as it is at that point.
\<close>

definition expired_instance_ids :: "instant \<Rightarrow> leases \<Rightarrow> string list" where
  "expired_instance_ids threshold_time d = map fst (filter (\<lambda>(k, v). v < threshold_time) d)"

definition unset_expired :: "string list \<Rightarrow> bool \<Rightarrow> proxy \<Rightarrow> proxy" where
  "unset_expired ks all_expired q =
     (let q' = q\<lparr>instance_ids :=
                   (case instance_ids q of IdsDict d \<Rightarrow> IdsDict (fold unset_path ks d) | x \<Rightarrow> x)\<rparr>
      in if all_expired then q'\<lparr>last_used := Missing\<rparr> else q')"

definition sweep_proxy :: "instant \<Rightarrow> proxy \<Rightarrow> store \<Rightarrow> write_error + store" where
  "sweep_proxy threshold_time p s =
     (case instance_ids p of
        IdsArray a \<Rightarrow> Inr s
      | IdsMissing \<Rightarrow> Inr s
      | IdsDict d \<Rightarrow>
          (let expired = expired_instance_ids threshold_time d in
           if expired \<noteq> [] then
             (if accepted_paths expired then
                Inr (snd (update_one (\<lambda>q. pid q = pid p)
                       (unset_expired expired (length expired = length d)) s))
              else Inl WriteError)
           else Inr s))"

fun sweep_loop :: "instant \<Rightarrow> proxy list \<Rightarrow> store \<Rightarrow> write_error option \<times> store" where
  "sweep_loop threshold_time [] s = (None, s)"
| "sweep_loop threshold_time (p # ps) s =
     (case sweep_proxy threshold_time p s of
        Inl e \<Rightarrow> (Some e, s)
      | Inr s' \<Rightarrow> sweep_loop threshold_time ps s')"

definition clear_inactive_proxies_iteration ::
  "manager \<Rightarrow> instant \<Rightarrow> store \<Rightarrow> write_error option \<times> store" where
  "clear_inactive_proxies_iteration m now s =
     sweep_loop (now - minutes (threshold_time_minutes m)) s s"

subsection \<open>Adding a proxy\<close>

datatype http_error = HTTPException int string

text \<open>\<open>model_dump(by_alias=True, exclude_none=True)\<close>: a field that is \<open>None\<close> is left out.\<close>

fun exclude_none :: "'a field \<Rightarrow> 'a field" where
  "exclude_none Null = Missing"
| "exclude_none x = x"

definition model_dump :: "proxy \<Rightarrow> proxy" where
  "model_dump p = p\<lparr>instance_id := exclude_none (instance_id p), last_used := exclude_none (last_used p)\<rparr>"

text \<open>
  \<open>add_proxy\<close>: \<open>find_one\<close> on the three fields as they were sent, \<open>insert_one\<close> when nothing
  was found. An \<open>_id\<close> already in the collection makes \<open>insert_one\<close> raise, which the
  handler turns into status 500. The probe that \<open>add_proxy\<close> schedules runs later and is
  not part of the call.
\<close>

definition add_proxy :: "proxy \<Rightarrow> store \<Rightarrow> (http_error + oid) \<times> store" where
  "add_proxy p s =
     (let proxy_data = model_dump p in
      case find (\<lambda>q. ip q = ip proxy_data \<and> port q = port proxy_data
                     \<and> protocol q = protocol proxy_data) s of
        Some existing_proxy \<Rightarrow>
          (Inl (HTTPException 400 ''A proxy with the same IP, port, and protocol already exists.''), s)
      | None \<Rightarrow>
          if pid proxy_data \<in> set (map pid s)
          then (Inl (HTTPException 500 ''An error occurred while adding the proxy.''), s)
          else (Inr (pid p), s @ [proxy_data]))"

subsection \<open>Settings\<close>

text \<open>
  The collection \<open>proxy_manager_settings\<close> holds the settings document, or nothing. The
  document is a map from field names to integers (its \<open>_id\<close> is left out).
\<close>

type_synonym settings_doc = "string \<rightharpoonup> int"
type_synonym settings_db = "settings_doc option"

record SettingsModel =
  sm_max_proxies_per_instance :: "int option"
  sm_max_instances_per_proxy :: "int option"
  sm_inactive_proxy_timeout :: "int option"
  sm_background_check_proxies_interval :: "int option"
  sm_threshold_time_minutes :: "int option"

definition default_settings :: settings_doc where
  "default_settings =
     [''inactive_proxy_timeout'' \<mapsto> 10,
      ''threshold_time_minutes'' \<mapsto> 10,
      ''background_check_proxies_interval'' \<mapsto> 60,
      ''max_instances_per_proxy'' \<mapsto> 2,
      ''max_proxies_per_instance'' \<mapsto> 1]"

datatype py_error = KeyError string

text \<open>
  One assignment \<open>self.<attr> = settings["<attr>"]\<close>; after a \<open>KeyError\<close> the later
  assignments are not reached and the earlier ones stay.
\<close>

definition assign_attr ::
  "string \<Rightarrow> (int \<Rightarrow> manager \<Rightarrow> manager) \<Rightarrow> settings_doc \<Rightarrow> py_error option \<times> manager \<Rightarrow>
   py_error option \<times> manager" where
  "assign_attr k upd st em =
     (case fst em of
        Some e \<Rightarrow> em
      | None \<Rightarrow> (case st k of
                  None \<Rightarrow> (Some (KeyError k), snd em)
                | Some v \<Rightarrow> (None, upd v (snd em))))"

definition load_settings :: "settings_db \<Rightarrow> manager \<Rightarrow> (py_error + settings_doc) \<times> settings_db \<times> manager" where
  "load_settings db m =
     (let (db', st, m0) =
            (case db of
               None \<Rightarrow> (Some default_settings, default_settings, m\<lparr>settings := Some default_settings\<rparr>)
             | Some d \<Rightarrow> (db, d, m));
          em1 = assign_attr ''inactive_proxy_timeout'' (\<lambda>v m. m\<lparr>inactive_proxy_timeout := v\<rparr>) st (None, m0);
          em2 = assign_attr ''threshold_time_minutes'' (\<lambda>v m. m\<lparr>threshold_time_minutes := v\<rparr>) st em1;
          em3 = assign_attr ''background_check_proxies_interval''
                  (\<lambda>v m. m\<lparr>background_check_proxies_interval := v\<rparr>) st em2;
          em4 = assign_attr ''max_instances_per_proxy'' (\<lambda>v m. m\<lparr>max_instances_per_proxy := v\<rparr>) st em3;
          em5 = assign_attr ''max_proxies_per_instance'' (\<lambda>v m. m\<lparr>max_proxies_per_instance := v\<rparr>) st em4
      in (case fst em5 of Some e \<Rightarrow> Inl e | None \<Rightarrow> Inr st, db', snd em5))"

text \<open>\<open>updated_settings.model_dump(exclude_none=True)\<close>, in the order of the model's fields.\<close>

fun entry :: "string \<Rightarrow> int option \<Rightarrow> (string \<times> int) list" where
  "entry k None = []"
| "entry k (Some v) = [(k, v)]"

definition settings_dump :: "SettingsModel \<Rightarrow> (string \<times> int) list" where
  "settings_dump u =
     entry ''max_proxies_per_instance'' (sm_max_proxies_per_instance u)
     @ entry ''max_instances_per_proxy'' (sm_max_instances_per_proxy u)
     @ entry ''inactive_proxy_timeout'' (sm_inactive_proxy_timeout u)
     @ entry ''background_check_proxies_interval'' (sm_background_check_proxies_interval u)
     @ entry ''threshold_time_minutes'' (sm_threshold_time_minutes u)"

text \<open>
  \<open>update_one({}, {"$set": update_dict}, upsert=True)\<close> on the settings collection: the
  result is \<open>matched_count\<close>, which is 0 when the document had to be inserted.
\<close>

definition upsert_settings :: "(string \<times> int) list \<Rightarrow> settings_db \<Rightarrow> nat \<times> settings_db" where
  "upsert_settings update_dict db =
     (case db of
        None \<Rightarrow> (0, Some (map_of update_dict))
      | Some d \<Rightarrow> (1, Some (d ++ map_of update_dict)))"

definition update_settings ::
  "SettingsModel \<Rightarrow> settings_db \<Rightarrow> manager \<Rightarrow> (http_error + (string \<times> int) list) \<times> settings_db \<times> manager" where
  "update_settings u db m =
     (let update_dict = settings_dump u in
      if update_dict = [] then (Inl (HTTPException 400 ''No updates provided''), db, m)
      else (let (matched, db1) = upsert_settings update_dict db in
            if matched < 1 then (Inl (HTTPException 404 ''Settings not found''), db1, m)
            else (case load_settings db1 m of
                    (Inl e, db2, m2) \<Rightarrow>
                      (Inl (HTTPException 500 ''An error occurred while updating settings''), db2, m2)
                  | (Inr st, db2, m2) \<Rightarrow> (Inr update_dict, db2, m2))))"

subsection \<open>Example data\<close>

text \<open>
  The manager after \<open>load_settings\<close> on an empty settings collection, and a proxy as
  \<open>add_proxy\<close> stores it once the prober has found it up.
\<close>

definition manager0 :: manager where
  "manager0 =
     \<lparr>settings = Some default_settings, inactive_proxy_timeout = 10, threshold_time_minutes = 10,
      background_check_proxies_interval = 60, max_instances_per_proxy = 2,
      max_proxies_per_instance = 1\<rparr>"

definition proxy1 :: proxy where
  "proxy1 =
     \<lparr>pid = 1, ip = ''1.2.3.4'', port = 8080, username = None, password = None,
      protocol = ''HTTP'', status = ''UP'', country_code = None, instance_id = Missing,
      instance_ids = IdsDict [], last_used = Missing, tags = Some []\<rparr>"

definition proxy2 :: proxy where
  "proxy2 = proxy1\<lparr>pid := 2, ip := ''5.6.7.8''\<rparr>"

subsection \<open>Notions of the claims\<close>

text \<open>
  A proxy bears a lease for an instance when the instance is a key of its lease map. This
  is the count that the claims about the per-instance cap speak of; the code's own count is
  the query in \<open>assign_select\<close>.
\<close>

definition bears_lease :: "string \<Rightarrow> proxy \<Rightarrow> bool" where
  "bears_lease i p = (case instance_ids p of IdsDict d \<Rightarrow> i \<in> set (keys d) | _ \<Rightarrow> False)"

text \<open>
  A store with plain keys: no two documents share an \<open>_id\<close>, and every lease map has
  distinct keys, each a single path segment (so that \<open>instance_ids.<k>\<close> names the key
  \<open>k\<close>). The store itself guarantees the first two; the third holds as long as no
  instance id with a dot, or the empty one, has been assigned.
\<close>

fun wf_leases :: "ids_field \<Rightarrow> bool" where
  "wf_leases (IdsDict d) = (distinct (keys d) \<and> list_all path_segment (keys d))"
| "wf_leases _ = True"

definition wf_store :: "store \<Rightarrow> bool" where
  "wf_store s = (distinct (map pid s) \<and> list_all (\<lambda>p. wf_leases (instance_ids p)) s)"

text \<open>The document that one sweep with threshold time \<open>thr\<close> makes of a document.\<close>

definition swept :: "instant \<Rightarrow> proxy \<Rightarrow> proxy" where
  "swept thr p =
     (case instance_ids p of
        IdsDict d \<Rightarrow>
          (let expired = expired_instance_ids thr d in
           if expired \<noteq> [] then unset_expired expired (length expired = length d) p else p)
      | _ \<Rightarrow> p)"

text \<open>
  The triple that the uniqueness claim speaks of, and the error that \<open>add_proxy\<close> raises
  for a duplicate.
\<close>

definition triple :: "proxy \<Rightarrow> string \<times> int \<times> string" where
  "triple p = (ip p, port p, protocol p)"

definition Duplicate :: http_error where
  "Duplicate = HTTPException 400 ''A proxy with the same IP, port, and protocol already exists.''"



text \<open>A patch without a defined field, and an example of a patch with two.\<close>

definition no_fields :: "SettingsModel \<Rightarrow> bool" where
  "no_fields u =
     (sm_max_proxies_per_instance u = None \<and> sm_max_instances_per_proxy u = None
      \<and> sm_inactive_proxy_timeout u = None \<and> sm_background_check_proxies_interval u = None
      \<and> sm_threshold_time_minutes u = None)"

definition patch1 :: SettingsModel where
  "patch1 =
     \<lparr>sm_max_proxies_per_instance = Some 3, sm_max_instances_per_proxy = None,
      sm_inactive_proxy_timeout = None, sm_background_check_proxies_interval = None,
      sm_threshold_time_minutes = Some 15\<rparr>"

subsection \<open>Facts about dicts and store calls\<close>

lemma length_setitem_le: "length (setitem k v d) \<le> Suc (length d)"
  by (induction d) auto



lemma set_setitem: "x \<in> set (setitem k v d) \<Longrightarrow> x = (k, v) \<or> x \<in> set d"
  by (induction d) (auto split: if_splits)

lemma length_prune_le: "length (prune m now d) \<le> length d"
  by (simp add: prune_def)

lemma update_one_modified:
  "modified_count (update_one flt upd s) = 1 \<Longrightarrow> \<exists>q. find flt s = Some q \<and> upd q \<noteq> q"
proof (induction s)
  case Nil
  then show ?case by (simp add: modified_count_def)
next
  case (Cons p ps)
  show ?case
  proof (cases "flt p")
    case True
    with Cons.prems show ?thesis by (simp add: modified_count_def split: if_splits)
  next
    case False
    with Cons.prems have "modified_count (update_one flt upd ps) = 1"
      by (simp add: modified_count_def split_beta)
    with Cons.IH False show ?thesis by simp
  qed
qed

lemma update_one_modified_iff:
  "modified_count (update_one flt upd s) = 1 \<longleftrightarrow> (\<exists>q. find flt s = Some q \<and> upd q \<noteq> q)"
proof (induction s)
  case Nil
  show ?case by (simp add: modified_count_def)
next
  case (Cons p ps)
  show ?case
  proof (cases "flt p")
    case True
    then show ?thesis by (simp add: modified_count_def)
  next
    case False
    then have "modified_count (update_one flt upd (p # ps)) = modified_count (update_one flt upd ps)"
      by (simp add: modified_count_def split_beta)
    with Cons.IH False show ?thesis by simp
  qed
qed

lemma update_one_unmodified:
  "modified_count (update_one flt upd s) \<noteq> 1 \<Longrightarrow> snd (update_one flt upd s) = s"
proof (induction s)
  case Nil
  then show ?case by simp
next
  case (Cons p ps)
  show ?case
  proof (cases "flt p")
    case True
    with Cons.prems show ?thesis by (simp add: modified_count_def split: if_splits)
  next
    case False
    with Cons.prems have "modified_count (update_one flt upd ps) \<noteq> 1"
      by (simp add: modified_count_def split_beta)
    with Cons.IH False show ?thesis by (simp add: split_beta)
  qed
qed


lemma find_update_one:
  "(\<And>q. flt (upd q) = flt q) \<Longrightarrow>
   find flt (snd (update_one flt upd s)) = map_option upd (find flt s)"
  by (induction s) (simp_all add: split_beta)

lemma set_update_one:
  "q \<in> set (snd (update_one flt upd s)) \<Longrightarrow> q \<in> set s \<or> (\<exists>q0. find flt s = Some q0 \<and> q = upd q0)"
proof (induction s)
  case Nil
  then show ?case by simp
next
  case (Cons p ps)
  show ?case
  proof (cases "flt p")
    case True
    with Cons.prems show ?thesis by auto
  next
    case False
    with Cons.prems have "q = p \<or> q \<in> set (snd (update_one flt upd ps))"
      by (simp add: split_beta)
    with Cons.IH False show ?thesis by auto
  qed
qed

lemma instance_ids_update_same: "(p\<lparr>instance_ids := x\<rparr> = p) = (instance_ids p = x)"
  by (cases p) auto

lemma find_in_set: "find P xs = Some x \<Longrightarrow> x \<in> set xs \<and> P x"
  by (induction xs) (auto split: if_splits)

lemma get_proxy_update_one:
  "(\<And>q. pid (upd q) = pid q) \<Longrightarrow>
   get_proxy i (snd (update_one (\<lambda>q. pid q = i) upd s)) = map_option upd (get_proxy i s)"
  unfolding get_proxy_def by (rule find_update_one) simp

lemma update_last_used_None:
  "update_last_used i None srv s =
     (let r = update_one (\<lambda>p. pid p = i) (\<lambda>p. p\<lparr>last_used := Value srv\<rparr>) s
      in (Inr (modified_count r > 0), snd r))"
  by (simp add: update_last_used_def)

lemma get_proxy_update_last_used_None:
  "get_proxy i (snd (update_last_used i None srv s)) =
     map_option (\<lambda>p. p\<lparr>last_used := Value srv\<rparr>) (get_proxy i s)"
  by (simp add: update_last_used_None Let_def get_proxy_update_one)

lemma set_update_last_used_None:
  assumes "q \<in> set (snd (update_last_used i None srv s))"
  shows "q \<in> set s \<or> (\<exists>q0. get_proxy i s = Some q0 \<and> q = q0\<lparr>last_used := Value srv\<rparr>)"
  using set_update_one [of q "\<lambda>p. pid p = i" "\<lambda>p. p\<lparr>last_used := Value srv\<rparr>" s] assms
  by (simp add: update_last_used_None Let_def get_proxy_def)

lemma in_set_delitem: "(x \<in> set (delitem k d)) = (x \<in> set d \<and> fst x \<noteq> k)"
proof (induction d)
  case Nil
  show ?case by simp
next
  case (Cons a d)
  obtain k' v' where a: "a = (k', v')" by (cases a)
  show ?case
  proof (cases "k' = k")
    case True
    with a Cons show ?thesis by auto
  next
    case False
    with a Cons show ?thesis by auto
  qed
qed

lemma in_set_fold_delitem: "(x \<in> set (fold delitem ks d)) = (x \<in> set d \<and> fst x \<notin> set ks)"
proof (induction ks arbitrary: d)
  case Nil
  show ?case by simp
next
  case (Cons k ks)
  have "(x \<in> set (fold delitem (k # ks) d)) = (x \<in> set (fold delitem ks (delitem k d)))"
    by simp
  also have "\<dots> = (x \<in> set (delitem k d) \<and> fst x \<notin> set ks)"
    by (rule Cons.IH)
  also have "\<dots> = (x \<in> set d \<and> fst x \<notin> set (k # ks))"
    by (auto simp: in_set_delitem)
  finally show ?case .
qed

lemma update_one_append_miss:
  "\<forall>x \<in> set xs. \<not> flt x \<Longrightarrow>
   snd (update_one flt upd (xs @ ys)) = xs @ snd (update_one flt upd ys)"
  by (induction xs) (simp_all add: split_beta)

lemma update_one_by_pid_here:
  assumes "\<forall>x \<in> set xs. pid x \<noteq> pid p"
  shows "snd (update_one (\<lambda>q. pid q = pid p) f (xs @ p # ys)) = xs @ f p # ys"
proof -
  have "snd (update_one (\<lambda>q. pid q = pid p) f (xs @ p # ys))
          = xs @ snd (update_one (\<lambda>q. pid q = pid p) f (p # ys))"
    using assms by (intro update_one_append_miss) simp
  then show ?thesis by simp
qed

lemma get_proxy_map:
  assumes "distinct (map pid s)" and "p \<in> set s" and "\<And>q. pid (f q) = pid q"
  shows "get_proxy (pid p) (map f s) = Some (f p)"
  using assms(1,2)
proof (induction s)
  case Nil
  then show ?case by simp
next
  case (Cons x xs)
  show ?case
  proof (cases "x = p")
    case True
    then show ?thesis by (simp add: get_proxy_def assms(3))
  next
    case False
    with Cons.prems have "p \<in> set xs" "pid x \<noteq> pid p" by auto
    with Cons show ?thesis by (simp add: get_proxy_def assms(3))
  qed
qed

subsection \<open>Facts about assignment\<close>

text \<open>What a commit that reports success leaves in the store.\<close>

lemma assign_commit_success:
  assumes "assign_commit iid srv p d s = (Inr a, s')"
  shows "a_proxy_id a = pid p"
    and "\<exists>q. get_proxy (pid p) s = Some q \<and> instance_ids q \<noteq> IdsDict d
           \<and> get_proxy (pid p) s' = Some (q\<lparr>instance_ids := IdsDict d, last_used := Value srv\<rparr>)"
    and "\<And>x. x \<in> set s' \<Longrightarrow> x \<in> set s \<or> instance_ids x = IdsDict d"
proof -
  let ?r = "update_one (\<lambda>q. pid q = pid p) (\<lambda>q. q\<lparr>instance_ids := IdsDict d\<rparr>) s"
  from assms have m: "modified_count ?r = 1"
    by (simp add: assign_commit_def Let_def split: if_splits)
  with assms have a: "a = \<lparr>a_proxy_id = pid p, a_ip = ip p, a_port = port p, a_username = username p,
              a_password = password p, a_protocol = protocol p\<rparr>"
    and s': "s' = snd (update_last_used (pid p) None srv (snd ?r))"
    by (simp_all add: assign_commit_def Let_def)
  from a show "a_proxy_id a = pid p" by simp
  from update_one_modified [OF m] obtain q where
    q: "find (\<lambda>q. pid q = pid p) s = Some q" "q\<lparr>instance_ids := IdsDict d\<rparr> \<noteq> q"
    by blast
  have g1: "get_proxy (pid p) (snd ?r) = Some (q\<lparr>instance_ids := IdsDict d\<rparr>)"
    using q(1) by (simp add: get_proxy_update_one) (simp add: get_proxy_def)
  have "instance_ids q \<noteq> IdsDict d"
    using q(2) by (cases q) auto
  moreover have "get_proxy (pid p) s = Some q"
    using q(1) by (simp add: get_proxy_def)
  moreover have "get_proxy (pid p) s' = Some (q\<lparr>instance_ids := IdsDict d, last_used := Value srv\<rparr>)"
    unfolding s' by (simp add: get_proxy_update_last_used_None g1)
  ultimately show "\<exists>q. get_proxy (pid p) s = Some q \<and> instance_ids q \<noteq> IdsDict d
           \<and> get_proxy (pid p) s' = Some (q\<lparr>instance_ids := IdsDict d, last_used := Value srv\<rparr>)"
    by blast
  fix x assume "x \<in> set s'"
  then have "x \<in> set (snd ?r) \<or> (\<exists>q0. get_proxy (pid p) (snd ?r) = Some q0 \<and> x = q0\<lparr>last_used := Value srv\<rparr>)"
    unfolding s' by (rule set_update_last_used_None)
  then show "x \<in> set s \<or> instance_ids x = IdsDict d"
  proof
    assume "x \<in> set (snd ?r)"
    from set_update_one [OF this] show ?thesis by auto
  next
    assume "\<exists>q0. get_proxy (pid p) (snd ?r) = Some q0 \<and> x = q0\<lparr>last_used := Value srv\<rparr>"
    with g1 show ?thesis by auto
  qed
qed

text \<open>A successful assignment went through a candidate with a lease map and a commit.\<close>

lemma assign_success_cases:
  assumes "assign_proxy_to_instance m iid cc tgs now srv s = (Inr a, s')"
  obtains p d0 where
    "assign_select m iid cc tgs s = Inr p"
    "instance_ids p = IdsDict d0"
    "assign_commit iid srv p (setitem iid now (prune m now d0)) s = (Inr a, s')"
proof -
  from assms obtain p where p: "assign_select m iid cc tgs s = Inr p"
    by (cases "assign_select m iid cc tgs s") (simp_all add: assign_proxy_to_instance_def assign_between_def)
  with assms obtain d where d: "new_instance_ids m iid now p = Inr d"
    and c: "assign_commit iid srv p d s = (Inr a, s')"
    by (cases "new_instance_ids m iid now p") (simp_all add: assign_proxy_to_instance_def assign_between_def)
  from d obtain d0 where "instance_ids p = IdsDict d0" "d = setitem iid now (prune m now d0)"
    by (cases "instance_ids p") (simp_all add: new_instance_ids_def)
  with p c that show thesis by blast
qed

lemma assign_select_candidate:
  assumes "assign_select m iid cc tgs s = Inr p"
  shows "p \<in> set s" and "candidate_query m cc tgs p"
    and "int (length (filter (\<lambda>p. field_equals iid (instance_ids p)) s)) < max_proxies_per_instance m"
proof -
  from assms have f: "find (candidate_query m cc tgs) s = Some p"
    and "\<not> int (length (filter (\<lambda>p. field_equals iid (instance_ids p)) s)) \<ge> max_proxies_per_instance m"
    by (auto simp: assign_select_def Let_def split: if_splits option.splits)
  then show "int (length (filter (\<lambda>p. field_equals iid (instance_ids p)) s)) < max_proxies_per_instance m"
    by simp
  from find_in_set [OF f] show "p \<in> set s" and "candidate_query m cc tgs p" by simp_all
qed

text \<open>
  What a successful assignment stores, in terms of the candidate that the query found:
  the document with the candidate's \<open>_id\<close> gets the candidate's pruned map with the
  instance set, and \<open>last_used\<close>.
\<close>

lemma assign_select_find:
  "assign_select m iid cc tgs s = Inr p \<Longrightarrow> find (candidate_query m cc tgs) s = Some p"
  by (auto simp: assign_select_def Let_def split: if_splits option.splits)

lemma assign_stored_candidate:
  assumes "assign_proxy_to_instance m iid cc tgs now srv s = (Inr a, s')"
  shows "\<exists>c d0 q0. find (candidate_query m cc tgs) s = Some c \<and> instance_ids c = IdsDict d0
           \<and> a_proxy_id a = pid c \<and> get_proxy (pid c) s = Some q0
           \<and> (distinct (map pid s) \<longrightarrow> q0 = c)
           \<and> get_proxy (pid c) s'
               = Some (q0\<lparr>instance_ids := IdsDict (setitem iid now (prune m now d0)),
                         last_used := Value srv\<rparr>)"
proof -
  from assms obtain c d0 where
    sel: "assign_select m iid cc tgs s = Inr c" and
    d0: "instance_ids c = IdsDict d0" and
    com: "assign_commit iid srv c (setitem iid now (prune m now d0)) s = (Inr a, s')"
    by (rule assign_success_cases)
  from assign_commit_success(1,2) [OF com] obtain q0 where
    a: "a_proxy_id a = pid c" and g: "get_proxy (pid c) s = Some q0" and
    g': "get_proxy (pid c) s'
           = Some (q0\<lparr>instance_ids := IdsDict (setitem iid now (prune m now d0)),
                     last_used := Value srv\<rparr>)"
    by auto
  have "q0 = c" if dist: "distinct (map pid s)"
  proof -
    from assign_select_candidate(1) [OF sel] have "c \<in> set s" .
    from get_proxy_map [OF dist this, of "\<lambda>x. x"] g show ?thesis by simp
  qed
  with assign_select_find [OF sel] d0 a g g' show ?thesis by blast
qed

text \<open>Unfolding an assignment on concrete data.\<close>

lemmas assign_defs =
  assign_proxy_to_instance_def assign_between_def assign_select_def candidate_query_def
  new_instance_ids_def prune_def minutes_def assign_commit_def update_last_used_def
  modified_count_def get_proxy_def Let_def

lemmas example_defs = manager0_def proxy1_def proxy2_def

subsection \<open>Facts about update paths and the expiry sweep\<close>

lemma split_path_segment: "CHR ''.'' \<notin> set k \<Longrightarrow> split_path k = [k]"
  by (induction k) auto

lemma path_segment_no_empty_name: "path_segment k \<Longrightarrow> no_empty_name k"
  by (simp add: path_segment_def no_empty_name_def split_path_segment)

lemma segments_not_conflicting:
  assumes "list_all path_segment ks"
  shows "\<not> conflicting ks"
proof -
  have "\<not> (k1 \<noteq> k2 \<and> leads_through k1 k2)"
    if "k1 \<in> set ks" "k2 \<in> set ks" for k1 k2
  proof -
    from that assms have "split_path k1 = [k1]" "split_path k2 = [k2]"
      by (simp_all add: list_all_iff path_segment_def split_path_segment)
    then show ?thesis by (auto simp: leads_through_def)
  qed
  then show ?thesis
    unfolding conflicting_def list_ex_iff by blast
qed

lemma segments_accepted: "list_all path_segment ks \<Longrightarrow> accepted_paths ks"
  using segments_not_conflicting [of ks]
  by (simp add: accepted_paths_def list_all_iff path_segment_no_empty_name)

lemma fold_unset_path_segments:
  "list_all path_segment ks \<Longrightarrow> fold unset_path ks d = fold delitem ks d"
  by (induction ks arbitrary: d) (simp_all add: unset_path_def)

lemma expired_segments:
  assumes "list_all path_segment (keys d)"
  shows "list_all path_segment (expired_instance_ids thr d)"
proof -
  have "set (expired_instance_ids thr d) \<subseteq> set (keys d)"
    by (auto simp: expired_instance_ids_def keys_def)
  with assms show ?thesis by (auto simp: list_all_iff)
qed

lemma pid_swept [simp]: "pid (swept thr p) = pid p"
  by (cases "instance_ids p") (simp_all add: swept_def unset_expired_def Let_def)

lemma sweep_proxy_here:
  assumes "\<forall>x \<in> set xs. pid x \<noteq> pid p" and "wf_leases (instance_ids p)"
  shows "sweep_proxy thr p (xs @ p # ys) = Inr (xs @ swept thr p # ys)"
proof (cases "instance_ids p")
  case (IdsDict d)
  show ?thesis
  proof (cases "expired_instance_ids thr d = []")
    case True
    with IdsDict show ?thesis by (simp add: sweep_proxy_def swept_def)
  next
    case False
    from assms(2) IdsDict have "accepted_paths (expired_instance_ids thr d)"
      by (simp add: segments_accepted expired_segments)
    with IdsDict False show ?thesis
      by (simp add: sweep_proxy_def swept_def Let_def update_one_by_pid_here [OF assms(1)])
  qed
qed (simp_all add: sweep_proxy_def swept_def)

lemma sweep_loop_map:
  "distinct (map pid (xs @ todo)) \<Longrightarrow> list_all (\<lambda>p. wf_leases (instance_ids p)) todo \<Longrightarrow>
   sweep_loop thr todo (map (swept thr) xs @ todo) = (None, map (swept thr) (xs @ todo))"
proof (induction todo arbitrary: xs)
  case Nil
  show ?case by simp
next
  case (Cons p ps)
  from Cons.prems have "pid p \<notin> pid ` set xs" by simp
  then have "\<forall>x \<in> set (map (swept thr) xs). pid x \<noteq> pid p"
    by (auto simp: image_iff)
  moreover from Cons.prems have "wf_leases (instance_ids p)" by simp
  ultimately have
    "sweep_proxy thr p (map (swept thr) xs @ p # ps) = Inr (map (swept thr) xs @ swept thr p # ps)"
    by (rule sweep_proxy_here)
  moreover from Cons.prems have "distinct (map pid ((xs @ [p]) @ ps))"
    and "list_all (\<lambda>p. wf_leases (instance_ids p)) ps" by simp_all
  from Cons.IH [OF this]
  have "sweep_loop thr ps (map (swept thr) xs @ swept thr p # ps)
          = (None, map (swept thr) (xs @ p # ps))"
    by simp
  ultimately show ?case by simp
qed

lemma iteration_map:
  "wf_store s \<Longrightarrow>
   clear_inactive_proxies_iteration m now s
     = (None, map (swept (now - minutes (threshold_time_minutes m))) s)"
  using sweep_loop_map [of "[]" s] by (simp add: clear_inactive_proxies_iteration_def wf_store_def)

lemma swept_fresh:
  assumes "wf_leases (instance_ids p)"
    and "instance_ids (swept thr p) = IdsDict d" and "(k, t) \<in> set d"
  shows "thr \<le> t"
proof (cases "instance_ids p")
  case (IdsDict d0)
  let ?ex = "expired_instance_ids thr d0"
  show ?thesis
  proof (cases "?ex = []")
    case True
    with IdsDict assms have "(k, t) \<in> set d0" by (simp add: swept_def)
    moreover from True have "\<forall>x \<in> set d0. \<not> (case x of (k, v) \<Rightarrow> v < thr)"
      by (simp add: expired_instance_ids_def filter_empty_conv)
    ultimately have "\<not> (case (k, t) of (k, v) \<Rightarrow> v < thr)" by blast
    then show ?thesis by simp
  next
    case False
    from assms(1) IdsDict have "fold unset_path ?ex d0 = fold delitem ?ex d0"
      by (simp add: fold_unset_path_segments expired_segments)
    with False IdsDict have "instance_ids (swept thr p) = IdsDict (fold delitem ?ex d0)"
      by (simp add: swept_def unset_expired_def Let_def)
    with assms(2) have "d = fold delitem ?ex d0" by simp
    with assms(3) have in_d0: "(k, t) \<in> set d0" and "k \<notin> set ?ex"
      by (simp_all add: in_set_fold_delitem)
    then have "k \<notin> fst ` set (filter (\<lambda>(k, v). v < thr) d0)"
      by (simp add: expired_instance_ids_def)
    then have "(k, t) \<notin> set (filter (\<lambda>(k, v). v < thr) d0)"
      by (metis fst_conv image_eqI)
    with in_d0 show ?thesis by simp
  qed
next
  case IdsMissing
  with assms show ?thesis by (simp add: swept_def)
next
  case (IdsArray a)
  with assms show ?thesis by (simp add: swept_def)
qed

lemma swept_all_expired:
  assumes "instance_ids p = IdsDict d" and "d \<noteq> []" and "\<forall>x \<in> set d. snd x < thr"
    and "list_all path_segment (keys d)"
  shows "swept thr p = p\<lparr>instance_ids := IdsDict [], last_used := Missing\<rparr>"
proof -
  from assms(3) have "\<forall>x \<in> set d. (case x of (k, v) \<Rightarrow> v < thr)"
    by (simp add: split_beta)
  then have f: "filter (\<lambda>(k, v). v < thr) d = d"
    by (simp add: filter_id_conv)
  then have ex: "expired_instance_ids thr d = map fst d"
    by (simp add: expired_instance_ids_def)
  have "x \<notin> set (fold delitem (map fst d) d)" for x
    by (simp add: in_set_fold_delitem)
  then have "set (fold delitem (map fst d) d) = {}"
    by (simp add: set_eq_iff)
  then have "fold delitem (map fst d) d = []" by simp
  moreover from assms(4) have "fold unset_path (map fst d) d = fold delitem (map fst d) d"
    by (simp add: fold_unset_path_segments keys_def)
  ultimately show ?thesis
    using assms(1,2) ex by (simp add: swept_def unset_expired_def Let_def)
qed

lemmas sweep_defs =
  clear_inactive_proxies_iteration_def sweep_proxy_def expired_instance_ids_def unset_expired_def
  minutes_def Let_def

subsection \<open>Facts about updates by \<open>_id\<close>\<close>




lemma find_pid_unique:
  assumes "distinct (map pid s)" and "find (\<lambda>q. pid q = i) s = Some p"
  shows "find (\<lambda>q. pid q = i \<and> P q) s = (if P p then Some p else None)"
  using assms
proof (induction s)
  case Nil
  then show ?case by simp
next
  case (Cons x xs)
  show ?case
  proof (cases "pid x = i")
    case True
    with Cons.prems have xp: "x = p" by simp
    from Cons.prems(1) True have "\<forall>q \<in> set xs. pid q \<noteq> i" by (auto simp: image_iff)
    then have "find (\<lambda>q. pid q = i \<and> P q) xs = None" unfolding find_None_iff by blast
    with True xp show ?thesis by simp
  next
    case False
    with Cons show ?thesis by simp
  qed
qed







lemmas path_defs =
  accepted_paths_def no_empty_name_def conflicting_def leads_through_def unset_path_def
  path_segment_def

lemmas clear_defs =
  clear_instance_from_specific_proxy_def clear_instance_id_def unset_lease_def modified_count_def
  get_proxy_def Let_def


subsection \<open>Facts about settings\<close>

lemma settings_dump_empty: "(settings_dump u = []) = no_fields u"
proof -
  have e: "(entry k v = []) = (v = None)" for k v by (cases v) simp_all
  show ?thesis by (simp add: settings_dump_def no_fields_def e)
qed








lemmas settings_defs =
  update_settings_def upsert_settings_def load_settings_def assign_attr_def settings_dump_def
  default_settings_def Let_def

section \<open>Claims\<close>

subsection \<open>C1: capacity of a proxy after an assignment\<close>

text \<open>
  C1. When \<open>assign_proxy_to_instance\<close> reports success, the lease map of the assigned
  proxy, as stored right after the call, has at most \<open>max_instances_per_proxy\<close> entries:
  the candidate was found with fewer entries than that, pruning removes entries only, and
  one entry is set. Every other document of the store is as it was before the call.
\<close>

theorem assign_capacity:
  assumes "assign_proxy_to_instance m iid cc tgs now srv s = (Inr a, s')"
  shows "(\<exists>p d. get_proxy (a_proxy_id a) s' = Some p \<and> instance_ids p = IdsDict d
            \<and> int (length d) \<le> max_instances_per_proxy m)
       \<and> (\<forall>q \<in> set s'. q \<in> set s
            \<or> (\<exists>d. instance_ids q = IdsDict d \<and> int (length d) \<le> max_instances_per_proxy m))"
proof -
  from assms obtain p d0 where
    sel: "assign_select m iid cc tgs s = Inr p" and
    d0: "instance_ids p = IdsDict d0" and
    com: "assign_commit iid srv p (setitem iid now (prune m now d0)) s = (Inr a, s')"
    by (rule assign_success_cases)
  let ?d = "setitem iid now (prune m now d0)"
  from assign_select_candidate(2) [OF sel] d0 have "int (length d0) < max_instances_per_proxy m"
    by (simp add: candidate_query_def)
  moreover have "length ?d \<le> Suc (length d0)"
    using length_setitem_le [of iid now "prune m now d0"] length_prune_le [of m now d0] by linarith
  ultimately have bound: "int (length ?d) \<le> max_instances_per_proxy m" by linarith
  from assign_commit_success(1,2) [OF com] bound
  have "\<exists>p d. get_proxy (a_proxy_id a) s' = Some p \<and> instance_ids p = IdsDict d
            \<and> int (length d) \<le> max_instances_per_proxy m"
    by auto
  moreover have "\<forall>q \<in> set s'. q \<in> set s
            \<or> (\<exists>d. instance_ids q = IdsDict d \<and> int (length d) \<le> max_instances_per_proxy m)"
    using assign_commit_success(3) [OF com] bound by blast
  ultimately show ?thesis by blast
qed

text \<open>
  Witness: with the default settings (two instances per proxy), a proxy that holds a fresh
  lease of \<open>i1\<close> takes \<open>i2\<close> and then holds two leases.
\<close>

theorem assign_capacity_witness:
  "assign_proxy_to_instance manager0 ''i2'' None None 660000 660001
       [proxy1\<lparr>instance_ids := IdsDict [(''i1'', 659000)]\<rparr>]
     = (Inr \<lparr>a_proxy_id = 1, a_ip = ''1.2.3.4'', a_port = 8080, a_username = None,
             a_password = None, a_protocol = ''HTTP''\<rparr>,
        [proxy1\<lparr>instance_ids := IdsDict [(''i1'', 659000), (''i2'', 660000)],
                last_used := Value 660001\<rparr>])
   \<and> (\<exists>p d. get_proxy 1 [proxy1\<lparr>instance_ids := IdsDict [(''i1'', 659000), (''i2'', 660000)],
                last_used := Value 660001\<rparr>] = Some p
          \<and> instance_ids p = IdsDict d \<and> int (length d) \<le> max_instances_per_proxy manager0)"
proof -
  have h: "assign_proxy_to_instance manager0 ''i2'' None None 660000 660001
       [proxy1\<lparr>instance_ids := IdsDict [(''i1'', 659000)]\<rparr>]
     = (Inr \<lparr>a_proxy_id = 1, a_ip = ''1.2.3.4'', a_port = 8080, a_username = None,
             a_password = None, a_protocol = ''HTTP''\<rparr>,
        [proxy1\<lparr>instance_ids := IdsDict [(''i1'', 659000), (''i2'', 660000)],
                last_used := Value 660001\<rparr>])"
    by (simp add: assign_defs example_defs)
  from assign_capacity [OF h] h show ?thesis by simp
qed

subsection \<open>C2: the commit write of an assignment\<close>

text \<open>
  C2, as the claim states it, fails. The write is \<open>update_one({"_id": ...}, {"$set": ...})\<close>:
  its filter does not mention the lease map that was read. First case below: between the
  read and the write another request has stored a lease of \<open>i1\<close>; the write for \<open>i2\<close> lands
  all the same and the lease of \<open>i1\<close> is gone. Second case: the candidate was deleted
  before the write; the call returns its error although \<open>proxy2\<close> is a candidate, so
  there is no retry.
\<close>

theorem commit_overwrites_counterexample:
  "get_proxy 1 [proxy1\<lparr>instance_ids := IdsDict [(''i1'', 659999)], last_used := Value 659999\<rparr>]
     \<noteq> get_proxy 1 [proxy1]
   \<and> assign_between manager0 ''i2'' None None 660000 660001
        [proxy1]
        [proxy1\<lparr>instance_ids := IdsDict [(''i1'', 659999)], last_used := Value 659999\<rparr>]
      = (Inr \<lparr>a_proxy_id = 1, a_ip = ''1.2.3.4'', a_port = 8080, a_username = None,
              a_password = None, a_protocol = ''HTTP''\<rparr>,
         [proxy1\<lparr>instance_ids := IdsDict [(''i2'', 660000)], last_used := Value 660001\<rparr>])
   \<and> assign_between manager0 ''i2'' None None 660000 660001 [proxy1, proxy2] [proxy2]
      = (Inl (AssignFailed 1), [proxy2])"
  by (simp add: assign_defs example_defs)

text \<open>
  C2 amended. The commit write replaces the lease map of the document that has the
  candidate's \<open>_id\<close>, whatever map that document holds when the write arrives. The call
  reports success exactly when the write modified the document, that is when the document
  exists and its map differs from the new one; the new map and \<open>last_used\<close> are then
  stored. Otherwise the call returns its error, the store is as it was, and nothing is
  retried.
\<close>

theorem assign_commit_unconditional:
  "(get_proxy (pid p) s = None \<longrightarrow>
      assign_commit iid srv p d s = (Inl (AssignFailed (pid p)), s))
   \<and> (\<forall>q. get_proxy (pid p) s = Some q \<and> instance_ids q = IdsDict d \<longrightarrow>
      assign_commit iid srv p d s = (Inl (AssignFailed (pid p)), s))
   \<and> (\<forall>q. get_proxy (pid p) s = Some q \<and> instance_ids q \<noteq> IdsDict d \<longrightarrow>
      fst (assign_commit iid srv p d s)
        = Inr \<lparr>a_proxy_id = pid p, a_ip = ip p, a_port = port p, a_username = username p,
               a_password = password p, a_protocol = protocol p\<rparr>
      \<and> get_proxy (pid p) (snd (assign_commit iid srv p d s))
        = Some (q\<lparr>instance_ids := IdsDict d, last_used := Value srv\<rparr>))"
proof -
  let ?r = "update_one (\<lambda>q. pid q = pid p) (\<lambda>q. q\<lparr>instance_ids := IdsDict d\<rparr>) s"
  have mod: "modified_count ?r = 1 \<longleftrightarrow> (\<exists>q. get_proxy (pid p) s = Some q \<and> instance_ids q \<noteq> IdsDict d)"
    using update_one_modified_iff [of "\<lambda>q. pid q = pid p" "\<lambda>q. q\<lparr>instance_ids := IdsDict d\<rparr>" s]
    by (simp add: get_proxy_def instance_ids_update_same)
  have fail: "modified_count ?r \<noteq> 1 \<Longrightarrow> assign_commit iid srv p d s = (Inl (AssignFailed (pid p)), s)"
    by (simp add: assign_commit_def Let_def update_one_unmodified)
  have a: "get_proxy (pid p) s = None \<longrightarrow>
      assign_commit iid srv p d s = (Inl (AssignFailed (pid p)), s)"
    using mod fail by auto
  have b: "\<forall>q. get_proxy (pid p) s = Some q \<and> instance_ids q = IdsDict d \<longrightarrow>
      assign_commit iid srv p d s = (Inl (AssignFailed (pid p)), s)"
    using mod fail by auto
  have c: "\<forall>q. get_proxy (pid p) s = Some q \<and> instance_ids q \<noteq> IdsDict d \<longrightarrow>
      fst (assign_commit iid srv p d s)
        = Inr \<lparr>a_proxy_id = pid p, a_ip = ip p, a_port = port p, a_username = username p,
               a_password = password p, a_protocol = protocol p\<rparr>
      \<and> get_proxy (pid p) (snd (assign_commit iid srv p d s))
        = Some (q\<lparr>instance_ids := IdsDict d, last_used := Value srv\<rparr>)"
  proof (intro allI impI)
    fix q assume q: "get_proxy (pid p) s = Some q \<and> instance_ids q \<noteq> IdsDict d"
    with mod have m: "modified_count ?r = 1" by blast
    then have f: "fst (assign_commit iid srv p d s)
        = Inr \<lparr>a_proxy_id = pid p, a_ip = ip p, a_port = port p, a_username = username p,
               a_password = password p, a_protocol = protocol p\<rparr>"
      by (simp add: assign_commit_def Let_def)
    then have "assign_commit iid srv p d s
        = (Inr \<lparr>a_proxy_id = pid p, a_ip = ip p, a_port = port p, a_username = username p,
               a_password = password p, a_protocol = protocol p\<rparr>, snd (assign_commit iid srv p d s))"
      by (metis prod.collapse)
    from assign_commit_success(2) [OF this] q
    have "get_proxy (pid p) (snd (assign_commit iid srv p d s))
        = Some (q\<lparr>instance_ids := IdsDict d, last_used := Value srv\<rparr>)"
      by auto
    with f show "fst (assign_commit iid srv p d s)
        = Inr \<lparr>a_proxy_id = pid p, a_ip = ip p, a_port = port p, a_username = username p,
               a_password = password p, a_protocol = protocol p\<rparr>
      \<and> get_proxy (pid p) (snd (assign_commit iid srv p d s))
        = Some (q\<lparr>instance_ids := IdsDict d, last_used := Value srv\<rparr>)"
      by simp
  qed
  from a b c show ?thesis by blast
qed

text \<open>
  Witness: the candidate is gone (error, store unchanged); the document already holds the
  new map (error, store unchanged); the document holds another map (the write lands).
\<close>

theorem assign_commit_unconditional_witness:
  "get_proxy (pid proxy1) [proxy2] = None
   \<and> assign_commit ''i2'' 660001 proxy1 [(''i2'', 660000)] [proxy2] = (Inl (AssignFailed 1), [proxy2])
   \<and> get_proxy (pid proxy1) [proxy1\<lparr>instance_ids := IdsDict [(''i2'', 660000)]\<rparr>]
        = Some (proxy1\<lparr>instance_ids := IdsDict [(''i2'', 660000)]\<rparr>)
   \<and> assign_commit ''i2'' 660001 proxy1 [(''i2'', 660000)]
        [proxy1\<lparr>instance_ids := IdsDict [(''i2'', 660000)]\<rparr>]
      = (Inl (AssignFailed 1), [proxy1\<lparr>instance_ids := IdsDict [(''i2'', 660000)]\<rparr>])
   \<and> get_proxy (pid proxy1) [proxy1\<lparr>instance_ids := IdsDict [(''i1'', 659999)]\<rparr>]
        = Some (proxy1\<lparr>instance_ids := IdsDict [(''i1'', 659999)]\<rparr>)
   \<and> instance_ids (proxy1\<lparr>instance_ids := IdsDict [(''i1'', 659999)]\<rparr>) \<noteq> IdsDict [(''i2'', 660000)]
   \<and> get_proxy 1 (snd (assign_commit ''i2'' 660001 proxy1 [(''i2'', 660000)]
        [proxy1\<lparr>instance_ids := IdsDict [(''i1'', 659999)]\<rparr>]))
      = Some (proxy1\<lparr>instance_ids := IdsDict [(''i2'', 660000)], last_used := Value 660001\<rparr>)"
proof -
  have h1: "get_proxy (pid proxy1) [proxy2] = None"
    by (simp add: get_proxy_def example_defs)
  have h2: "get_proxy (pid proxy1) [proxy1\<lparr>instance_ids := IdsDict [(''i2'', 660000)]\<rparr>]
        = Some (proxy1\<lparr>instance_ids := IdsDict [(''i2'', 660000)]\<rparr>)"
    by (simp add: get_proxy_def)
  have h3: "get_proxy (pid proxy1) [proxy1\<lparr>instance_ids := IdsDict [(''i1'', 659999)]\<rparr>]
        = Some (proxy1\<lparr>instance_ids := IdsDict [(''i1'', 659999)]\<rparr>)"
    by (simp add: get_proxy_def)
  have h4: "instance_ids (proxy1\<lparr>instance_ids := IdsDict [(''i1'', 659999)]\<rparr>) \<noteq> IdsDict [(''i2'', 660000)]"
    by simp
  have p1: "pid proxy1 = 1" by (simp add: proxy1_def)
  from assign_commit_unconditional [of proxy1 "[proxy2]" "''i2''" 660001 "[(''i2'', 660000)]"] h1
  have c1: "assign_commit ''i2'' 660001 proxy1 [(''i2'', 660000)] [proxy2] = (Inl (AssignFailed 1), [proxy2])"
    by (simp add: p1)
  from assign_commit_unconditional [of proxy1 "[proxy1\<lparr>instance_ids := IdsDict [(''i2'', 660000)]\<rparr>]"
      "''i2''" 660001 "[(''i2'', 660000)]"] h2
  have c2: "assign_commit ''i2'' 660001 proxy1 [(''i2'', 660000)]
        [proxy1\<lparr>instance_ids := IdsDict [(''i2'', 660000)]\<rparr>]
      = (Inl (AssignFailed 1), [proxy1\<lparr>instance_ids := IdsDict [(''i2'', 660000)]\<rparr>])"
    by (simp add: p1)
  from assign_commit_unconditional [of proxy1 "[proxy1\<lparr>instance_ids := IdsDict [(''i1'', 659999)]\<rparr>]"
      "''i2''" 660001 "[(''i2'', 660000)]"] h3 h4
  have c3: "get_proxy 1 (snd (assign_commit ''i2'' 660001 proxy1 [(''i2'', 660000)]
        [proxy1\<lparr>instance_ids := IdsDict [(''i1'', 659999)]\<rparr>]))
      = Some (proxy1\<lparr>instance_ids := IdsDict [(''i2'', 660000)], last_used := Value 660001\<rparr>)"
    by (simp add: p1)
  from h1 c1 h2 c2 h3 h4 c3 show ?thesis by blast
qed

subsection \<open>C3: the cap on proxies per instance\<close>

text \<open>
  The count that \<open>assign_proxy_to_instance\<close> compares with \<open>max_proxies_per_instance\<close> is
  the number of documents matched by \<open>{"instance_ids": instance_id}\<close>. No document whose
  \<open>instance_ids\<close> is a lease map (or is absent) matches, so among such documents the count
  is 0 however many of them bear a lease of the instance.
\<close>

lemma lease_query_matches_no_map:
  assumes "\<forall>p \<in> set s. \<not> is_array (instance_ids p)"
  shows "filter (\<lambda>p. field_equals iid (instance_ids p)) s = []"
proof -
  have "\<not> field_equals iid (instance_ids p)" if "p \<in> set s" for p
    using assms that by (cases "instance_ids p") auto
  then show ?thesis by (simp add: filter_empty_conv)
qed

text \<open>
  C3 does not hold of the code. With \<open>max_proxies_per_instance = 1\<close>, instance \<open>i1\<close> holds a
  fresh lease on \<open>proxy1\<close> (which is full: two leases, \<open>max_instances_per_proxy = 2\<close>). The
  number of proxies bearing a lease of \<open>i1\<close> has reached the cap, yet the assignment for
  \<open>i1\<close> does not return \<open>InstanceSaturated\<close>: it succeeds and leases \<open>proxy2\<close> as well.
\<close>

theorem assign_ignores_instance_cap:
  "int (length (filter (bears_lease ''i1'')
          [proxy1\<lparr>instance_ids := IdsDict [(''i1'', 659000), (''i3'', 659500)]\<rparr>, proxy2]))
     \<ge> max_proxies_per_instance manager0
   \<and> assign_proxy_to_instance manager0 ''i1'' None None 660000 660001
        [proxy1\<lparr>instance_ids := IdsDict [(''i1'', 659000), (''i3'', 659500)]\<rparr>, proxy2]
      = (Inr \<lparr>a_proxy_id = 2, a_ip = ''5.6.7.8'', a_port = 8080, a_username = None,
              a_password = None, a_protocol = ''HTTP''\<rparr>,
         [proxy1\<lparr>instance_ids := IdsDict [(''i1'', 659000), (''i3'', 659500)]\<rparr>,
          proxy2\<lparr>instance_ids := IdsDict [(''i1'', 660000)], last_used := Value 660001\<rparr>])"
  by (simp add: assign_defs example_defs bears_lease_def keys_def)

subsection \<open>C4: stale leases are pruned by an assignment\<close>

text \<open>
  C4, as the claim states it, fails: with \<open>max_instances_per_proxy = 1\<close> the single proxy
  holding the stale lease of \<open>i1\<close> (11 minutes old, timeout 10 minutes) is not a candidate,
  because the candidate query counts the stored leases, stale ones included, and the
  assignment for \<open>i2\<close> ends with no proxy available.
\<close>

theorem stale_lease_blocks_counterexample:
  "(0::int) \<le> 660000 - minutes (inactive_proxy_timeout (manager0\<lparr>max_instances_per_proxy := 1\<rparr>))
   \<and> assign_proxy_to_instance (manager0\<lparr>max_instances_per_proxy := 1\<rparr>) ''i2'' None None 660000 660001
         [proxy1\<lparr>instance_ids := IdsDict [(''i1'', 0)]\<rparr>]
       = (Inl NoProxyAvailable, [proxy1\<lparr>instance_ids := IdsDict [(''i1'', 0)]\<rparr>])"
  by (simp add: assign_defs example_defs)

text \<open>
  C4 amended. With \<open>max_instances_per_proxy > 1\<close> and \<open>max_proxies_per_instance > 0\<close>: if
  the store holds a single UP proxy whose lease map is \<open>{i1: t}\<close> with \<open>t\<close> not newer than
  \<open>now - inactive_proxy_timeout\<close>, the assignment for another instance \<open>i2\<close> succeeds and
  the stored map is exactly \<open>{i2: now}\<close>. And whenever an assignment succeeds, it was
  made on the candidate \<open>c\<close> that the query found first; the document with the
  candidate's \<open>_id\<close> (the candidate itself when \<open>_id\<close>s are distinct) is as before except
  for \<open>last_used\<close> and for its lease map, which is now the candidate's map without the
  leases that are not strictly newer than \<open>now - inactive_proxy_timeout\<close>, with the
  instance set to \<open>now\<close>.
\<close>

theorem assign_prunes_stale:
  assumes "status p = ''UP''" and "instance_ids p = IdsDict [(i1, t)]"
    and "t \<le> now - minutes (inactive_proxy_timeout m)" and "i2 \<noteq> i1"
    and "1 < max_instances_per_proxy m" and "0 < max_proxies_per_instance m"
  shows "assign_proxy_to_instance m i2 None None now srv [p]
           = (Inr \<lparr>a_proxy_id = pid p, a_ip = ip p, a_port = port p, a_username = username p,
                   a_password = password p, a_protocol = protocol p\<rparr>,
              [p\<lparr>instance_ids := IdsDict [(i2, now)], last_used := Value srv\<rparr>])
       \<and> (\<forall>iid cc tgs s a s'.
            assign_proxy_to_instance m iid cc tgs now srv s = (Inr a, s') \<longrightarrow>
            (\<exists>c d0 q0. find (candidate_query m cc tgs) s = Some c
               \<and> instance_ids c = IdsDict d0
               \<and> a_proxy_id a = pid c
               \<and> get_proxy (pid c) s = Some q0
               \<and> (distinct (map pid s) \<longrightarrow> q0 = c)
               \<and> get_proxy (pid c) s'
                   = Some (q0\<lparr>instance_ids :=
                              IdsDict (setitem iid now
                                (filter (\<lambda>(k, v). now - minutes (inactive_proxy_timeout m) < v) d0)),
                            last_used := Value srv\<rparr>)))"
proof
  show "assign_proxy_to_instance m i2 None None now srv [p]
           = (Inr \<lparr>a_proxy_id = pid p, a_ip = ip p, a_port = port p, a_username = username p,
                   a_password = password p, a_protocol = protocol p\<rparr>,
              [p\<lparr>instance_ids := IdsDict [(i2, now)], last_used := Value srv\<rparr>])"
    using assms
    by (simp add: assign_proxy_to_instance_def assign_between_def assign_select_def
        candidate_query_def new_instance_ids_def prune_def assign_commit_def
        update_last_used_def modified_count_def instance_ids_update_same)
next
  show "\<forall>iid cc tgs s a s'.
            assign_proxy_to_instance m iid cc tgs now srv s = (Inr a, s') \<longrightarrow>
            (\<exists>c d0 q0. find (candidate_query m cc tgs) s = Some c
               \<and> instance_ids c = IdsDict d0
               \<and> a_proxy_id a = pid c
               \<and> get_proxy (pid c) s = Some q0
               \<and> (distinct (map pid s) \<longrightarrow> q0 = c)
               \<and> get_proxy (pid c) s'
                   = Some (q0\<lparr>instance_ids :=
                              IdsDict (setitem iid now
                                (filter (\<lambda>(k, v). now - minutes (inactive_proxy_timeout m) < v) d0)),
                            last_used := Value srv\<rparr>))"
    using assign_stored_candidate [of m _ _ _ now srv] by (simp add: prune_def)
qed

text \<open>Witness: scenario S2 under the default settings.\<close>

theorem assign_prunes_stale_witness:
  "status (proxy1\<lparr>instance_ids := IdsDict [(''i1'', 0)]\<rparr>) = ''UP''
   \<and> instance_ids (proxy1\<lparr>instance_ids := IdsDict [(''i1'', 0)]\<rparr>) = IdsDict [(''i1'', 0)]
   \<and> (0::int) \<le> 660000 - minutes (inactive_proxy_timeout manager0)
   \<and> ''i2'' \<noteq> ''i1''
   \<and> 1 < max_instances_per_proxy manager0 \<and> 0 < max_proxies_per_instance manager0
   \<and> assign_proxy_to_instance manager0 ''i2'' None None 660000 660001
        [proxy1\<lparr>instance_ids := IdsDict [(''i1'', 0)]\<rparr>]
      = (Inr \<lparr>a_proxy_id = 1, a_ip = ''1.2.3.4'', a_port = 8080, a_username = None,
              a_password = None, a_protocol = ''HTTP''\<rparr>,
         [proxy1\<lparr>instance_ids := IdsDict [(''i2'', 660000)], last_used := Value 660001\<rparr>])"
proof -
  have h1: "status (proxy1\<lparr>instance_ids := IdsDict [(''i1'', 0)]\<rparr>) = ''UP''"
    by (simp add: proxy1_def)
  have h2: "instance_ids (proxy1\<lparr>instance_ids := IdsDict [(''i1'', 0)]\<rparr>) = IdsDict [(''i1'', 0)]"
    by simp
  have h3: "(0::int) \<le> 660000 - minutes (inactive_proxy_timeout manager0)"
    by (simp add: manager0_def minutes_def)
  have h4: "''i2'' \<noteq> ''i1''" by simp
  have h5: "1 < max_instances_per_proxy manager0" by (simp add: manager0_def)
  have h6: "0 < max_proxies_per_instance manager0" by (simp add: manager0_def)
  from assign_prunes_stale [OF h1 h2 h3 h4 h5 h6, of 660001] h1 h2 h3 h4 h5 h6
  show ?thesis by (simp add: proxy1_def)
qed

subsection \<open>C5: one iteration of the expiry sweep\<close>

text \<open>
  On a store with plain keys the sweep does what C5 says: the iteration runs through,
  every lease \<open>(k, t)\<close> left in a lease map satisfies \<open>t \<ge> T - threshold_time_minutes\<close>, and
  a proxy that held leases, all of them older than that, is left with an empty lease map
  and without \<open>last_used\<close>.
\<close>

lemma sweep_on_plain_keys:
  assumes "wf_store s"
  shows "fst (clear_inactive_proxies_iteration m T s) = None"
    and "\<And>p' d k t. p' \<in> set (snd (clear_inactive_proxies_iteration m T s)) \<Longrightarrow>
            instance_ids p' = IdsDict d \<Longrightarrow> (k, t) \<in> set d \<Longrightarrow>
            t \<ge> T - minutes (threshold_time_minutes m)"
    and "\<And>p d. p \<in> set s \<Longrightarrow> instance_ids p = IdsDict d \<Longrightarrow> d \<noteq> [] \<Longrightarrow>
            \<forall>x \<in> set d. snd x < T - minutes (threshold_time_minutes m) \<Longrightarrow>
            get_proxy (pid p) (snd (clear_inactive_proxies_iteration m T s))
              = Some (p\<lparr>instance_ids := IdsDict [], last_used := Missing\<rparr>)"
proof -
  let ?thr = "T - minutes (threshold_time_minutes m)"
  from assms have dist: "distinct (map pid s)"
    and wf: "\<And>p. p \<in> set s \<Longrightarrow> wf_leases (instance_ids p)"
    by (simp_all add: wf_store_def list_all_iff)
  from assms have it: "clear_inactive_proxies_iteration m T s = (None, map (swept ?thr) s)"
    by (rule iteration_map)
  then show "fst (clear_inactive_proxies_iteration m T s) = None" by simp
  show "t \<ge> ?thr"
    if "p' \<in> set (snd (clear_inactive_proxies_iteration m T s))"
      and "instance_ids p' = IdsDict d" and "(k, t) \<in> set d" for p' d k t
  proof -
    from that(1) obtain p where "p \<in> set s" "p' = swept ?thr p" unfolding it by auto
    with that(2,3) wf show ?thesis using swept_fresh [of p ?thr d k t] by simp
  qed
  show "get_proxy (pid p) (snd (clear_inactive_proxies_iteration m T s))
              = Some (p\<lparr>instance_ids := IdsDict [], last_used := Missing\<rparr>)"
    if "p \<in> set s" and "instance_ids p = IdsDict d" and "d \<noteq> []"
      and "\<forall>x \<in> set d. snd x < ?thr" for p d
  proof -
    from get_proxy_map [OF dist that(1), of "swept ?thr"]
    have "get_proxy (pid p) (map (swept ?thr) s) = Some (swept ?thr p)" by simp
    moreover from wf [OF that(1)] that(2) have "list_all path_segment (keys d)" by simp
    with that have "swept ?thr p = p\<lparr>instance_ids := IdsDict [], last_used := Missing\<rparr>"
      using swept_all_expired [of p d ?thr] by blast
    ultimately show ?thesis by (simp add: it)
  qed
qed

text \<open>
  C5 does not hold of the code. An instance id may be any string, and
  \<open>assign_proxy_to_instance\<close> stores it as a key of the lease map: here the instance
  \<open>10.0.0.5\<close> is assigned at time 0. Twenty minutes later, with a threshold of ten
  minutes, the sweep finds the lease expired and sends \<open>$unset\<close> with the path
  \<open>instance_ids.10.0.0.5\<close>, which names no field of the map. The lease stays, older than
  \<open>T - threshold_time_minutes\<close>; \<open>last_used\<close>, which the same update unsets because every
  lease was expired, is gone while the map is not empty. The assignment's own pruning,
  which stores the whole map, has no such gap.
\<close>

theorem sweep_keeps_dotted_lease:
  "assign_proxy_to_instance manager0 ''10.0.0.5'' None None 0 1 [proxy1]
     = (Inr \<lparr>a_proxy_id = 1, a_ip = ''1.2.3.4'', a_port = 8080, a_username = None,
             a_password = None, a_protocol = ''HTTP''\<rparr>,
        [proxy1\<lparr>instance_ids := IdsDict [(''10.0.0.5'', 0)], last_used := Value 1\<rparr>])
   \<and> (0::int) < 1200000 - minutes (threshold_time_minutes manager0)
   \<and> clear_inactive_proxies_iteration manager0 1200000
        [proxy1\<lparr>instance_ids := IdsDict [(''10.0.0.5'', 0)], last_used := Value 1\<rparr>]
      = (None, [proxy1\<lparr>instance_ids := IdsDict [(''10.0.0.5'', 0)], last_used := Missing\<rparr>])"
  by (simp add: assign_defs sweep_defs path_defs example_defs)

subsection \<open>C6: duplicates in \<open>add_proxy\<close>\<close>

lemma triple_model_dump: "triple (model_dump p) = triple p"
  by (simp add: triple_def model_dump_def)

lemma add_proxy_found:
  "triple p \<in> set (map triple s) \<Longrightarrow> add_proxy p s = (Inl Duplicate, s)"
proof -
  assume "triple p \<in> set (map triple s)"
  then obtain q where "q \<in> set s" "triple q = triple p" by auto
  then have "\<exists>q \<in> set s. ip q = ip (model_dump p) \<and> port q = port (model_dump p)
                 \<and> protocol q = protocol (model_dump p)"
    by (auto simp: triple_def model_dump_def)
  then have "find (\<lambda>q. ip q = ip (model_dump p) \<and> port q = port (model_dump p)
                 \<and> protocol q = protocol (model_dump p)) s \<noteq> None"
    unfolding find_None_iff by blast
  then obtain existing_proxy where
    "find (\<lambda>q. ip q = ip (model_dump p) \<and> port q = port (model_dump p)
                 \<and> protocol q = protocol (model_dump p)) s = Some existing_proxy"
    by blast
  then show ?thesis
    by (simp add: add_proxy_def Let_def Duplicate_def)
qed

lemma add_proxy_not_found:
  assumes "triple p \<notin> set (map triple s)"
  shows "add_proxy p s =
           (if pid p \<in> set (map pid s)
            then (Inl (HTTPException 500 ''An error occurred while adding the proxy.''), s)
            else (Inr (pid p), s @ [model_dump p]))"
proof -
  from assms have "\<not> (\<exists>q \<in> set s. ip q = ip (model_dump p) \<and> port q = port (model_dump p)
                 \<and> protocol q = protocol (model_dump p))"
    by (auto simp: triple_def model_dump_def image_iff)
  then have "find (\<lambda>q. ip q = ip (model_dump p) \<and> port q = port (model_dump p)
                 \<and> protocol q = protocol (model_dump p)) s = None"
    by (simp add: find_None_iff)
  then show ?thesis
    by (simp add: add_proxy_def Let_def model_dump_def)
qed

text \<open>
  C6, as the claim states it, fails: the protocol is stored and compared as it was sent.
  With \<open>1.2.3.4:8080\<close> and protocol \<open>HTTP\<close> in the store, the same address with protocol
  \<open>http\<close> (equal once both are upper-cased) is not found by the query and is inserted.
\<close>

theorem add_proxy_case_counterexample:
  "ip (proxy2\<lparr>ip := ''1.2.3.4'', protocol := ''http''\<rparr>) = ip proxy1
   \<and> port (proxy2\<lparr>ip := ''1.2.3.4'', protocol := ''http''\<rparr>) = port proxy1
   \<and> upper (protocol (proxy2\<lparr>ip := ''1.2.3.4'', protocol := ''http''\<rparr>)) = upper (protocol proxy1)
   \<and> add_proxy (proxy2\<lparr>ip := ''1.2.3.4'', protocol := ''http''\<rparr>) [proxy1]
      = (Inr 2, [proxy1, proxy2\<lparr>ip := ''1.2.3.4'', protocol := ''http''\<rparr>])"
proof -
  have "upper ''http'' = upper ''HTTP''" by code_simp
  then show ?thesis
    by (simp add: add_proxy_def model_dump_def example_defs Let_def)
qed

text \<open>
  C6 amended. \<open>add_proxy\<close> fails with \<open>Duplicate\<close> exactly when some proxy of the store has
  the same \<open>ip\<close>, \<open>port\<close> and \<open>protocol\<close>, the protocol compared as the string it is, and
  then the store is unchanged. When a call has inserted a proxy, a further call with the
  same three fields fails with \<open>Duplicate\<close> and inserts nothing. If no two proxies of the
  store share the three fields, none do after \<open>add_proxy\<close>.
\<close>

theorem add_proxy_duplicate:
  "(fst (add_proxy p s) = Inl Duplicate) = (triple p \<in> set (map triple s))
   \<and> (triple p \<in> set (map triple s) \<longrightarrow> snd (add_proxy p s) = s)
   \<and> (\<forall>i p'. fst (add_proxy p s) = Inr i \<and> triple p' = triple p \<longrightarrow>
         add_proxy p' (snd (add_proxy p s)) = (Inl Duplicate, snd (add_proxy p s)))
   \<and> (distinct (map triple s) \<longrightarrow> distinct (map triple (snd (add_proxy p s))))"
proof (cases "triple p \<in> set (map triple s)")
  case True
  from add_proxy_found [OF True] True show ?thesis by simp
next
  case False
  note nf = add_proxy_not_found [OF False]
  show ?thesis
  proof (cases "pid p \<in> set (map pid s)")
    case True
    with nf False show ?thesis by (simp add: Duplicate_def)
  next
    case new: False
    with nf have r: "add_proxy p s = (Inr (pid p), s @ [model_dump p])" by simp
    have "add_proxy p' (s @ [model_dump p]) = (Inl Duplicate, s @ [model_dump p])"
      if "triple p' = triple p" for p'
      using that by (intro add_proxy_found) (simp add: triple_model_dump)
    moreover have "distinct (map triple s) \<longrightarrow> distinct (map triple (s @ [model_dump p]))"
      using False by (simp add: triple_model_dump)
    ultimately show ?thesis using r False by simp
  qed
qed

text \<open>Witness: scenario S4, the same descriptor added twice.\<close>

theorem add_proxy_duplicate_witness:
  "triple (proxy1\<lparr>pid := 7\<rparr>) \<in> set (map triple [proxy1])
   \<and> add_proxy (proxy1\<lparr>pid := 7\<rparr>) [proxy1] = (Inl Duplicate, [proxy1])
   \<and> fst (add_proxy proxy1 []) = Inr 1
   \<and> add_proxy (proxy1\<lparr>pid := 7\<rparr>) (snd (add_proxy proxy1 [])) = (Inl Duplicate, [proxy1])"
proof -
  have h1: "triple (proxy1\<lparr>pid := 7\<rparr>) \<in> set (map triple [proxy1])"
    by (simp add: triple_def)
  have h2: "fst (add_proxy proxy1 []) = Inr 1"
    by (simp add: add_proxy_def model_dump_def example_defs Let_def)
  have h3: "snd (add_proxy proxy1 []) = [proxy1]"
    by (simp add: add_proxy_def model_dump_def example_defs Let_def)
  have h4: "triple (proxy1\<lparr>pid := 7\<rparr>) = triple proxy1"
    by (simp add: triple_def)
  note a = add_proxy_duplicate [of "proxy1\<lparr>pid := 7\<rparr>" "[proxy1]"]
  note b = add_proxy_duplicate [of proxy1 "[]"]
  from a h1 have c1: "add_proxy (proxy1\<lparr>pid := 7\<rparr>) [proxy1] = (Inl Duplicate, [proxy1])"
    by (metis prod.collapse)
  from b h2 h4 have c2: "add_proxy (proxy1\<lparr>pid := 7\<rparr>) (snd (add_proxy proxy1 []))
      = (Inl Duplicate, snd (add_proxy proxy1 []))"
    by blast
  from h1 c1 h2 c2 h3 show ?thesis by simp
qed

subsection \<open>C7: updating the settings\<close>



text \<open>
  The cached values are the five attributes. The attribute \<open>self.settings\<close>, which only
  \<open>get_settings\<close> reads, is assigned by \<open>load_settings\<close> in the branch that inserts the
  defaults and nowhere else, so \<open>update_settings\<close> on an existing document leaves it as
  it was.
\<close>

lemma assign_attr_settings:
  "settings (snd (assign_attr k (\<lambda>v m. f v m) st em)) = settings (snd em)"
  if "\<And>v m. settings (f v m) = settings m"
  using that by (simp add: assign_attr_def split: option.splits)

lemma update_settings_keeps_settings_attribute:
  "settings (snd (snd (update_settings u (Some prev) m))) = settings m"
proof (cases "settings_dump u = []")
  case True
  then show ?thesis by (simp add: update_settings_def)
next
  case False
  let ?l = "load_settings (Some (prev ++ map_of (settings_dump u))) m"
  have "settings (snd (snd ?l)) = settings m"
    by (simp add: load_settings_def Let_def assign_attr_settings)
  moreover obtain r db2 m2 where l: "?l = (r, db2, m2)" by (metis prod.collapse)
  ultimately have "settings m2 = settings m" by simp
  with False l show ?thesis
    by (cases r) (simp_all add: update_settings_def upsert_settings_def Let_def)
qed

subsection \<open>C8: clearing one lease of one proxy\<close>




text \<open>
  Outside the amended claim: for an instance id with a dot the path of the \<open>$unset\<close> names
  no field, so a lease that is held stays, and the call takes the same way as for a lease
  that is not held; for the empty instance id the server rejects the path.
\<close>

lemma clear_dotted_lease_stays:
  "clear_instance_from_specific_proxy 1 ''10.0.0.5''
       [proxy1\<lparr>instance_ids := IdsDict [(''10.0.0.5'', 0)]\<rparr>]
     = (Inr StatusSuccess,
        [proxy1\<lparr>instance_ids := IdsDict [(''10.0.0.5'', 0)], instance_id := Null\<rparr>])"
  by (simp add: clear_defs path_defs example_defs)

lemma clear_empty_id_raises:
  "clear_instance_from_specific_proxy i [] s = (Inl WriteError, s)"
  by (simp add: clear_defs path_defs)

subsection \<open>C9: refreshing the usage of a proxy for an instance\<close>




subsection \<open>C10: updating the settings when no document exists\<close>

text \<open>
  C10. On an empty settings collection, \<open>update_settings\<close> with a patch that has a defined
  field leaves the collection holding a new document, made of the fields of the patch, and
  raises status 404 (\<open>Settings not found\<close>); the manager is unchanged.
\<close>

theorem update_settings_upsert_not_found:
  assumes "\<not> no_fields u"
  shows "update_settings u None m
           = (Inl (HTTPException 404 ''Settings not found''), Some (map_of (settings_dump u)), m)"
  using assms by (simp add: update_settings_def upsert_settings_def settings_dump_empty Let_def)


text \<open>Witness: the patch of two fields on an empty collection.\<close>

theorem update_settings_upsert_not_found_witness:
  "\<not> no_fields patch1
   \<and> update_settings patch1 None manager0
      = (Inl (HTTPException 404 ''Settings not found''),
         Some (map_of [(''max_proxies_per_instance'', 3), (''threshold_time_minutes'', 15)]),
         manager0)"
proof -
  have h: "\<not> no_fields patch1" by (simp add: no_fields_def patch1_def)
  have d: "settings_dump patch1 = [(''max_proxies_per_instance'', 3), (''threshold_time_minutes'', 15)]"
    by (simp add: settings_dump_def patch1_def)
  from update_settings_upsert_not_found [OF h, of manager0] h d show ?thesis by simp
qed


end
